theory Spec2Isabelle
  imports Main "HOL-Library.Sublist"
begin

section \<open>The cache table and its prepared statements\<close>

text \<open>
  The cache of \<^verbatim>\<open>src/Build/lib/cache-filesystem.ts\<close> keeps its entries in one SQLite
  table, created by
  \<^verbatim>\<open>CREATE TABLE IF NOT EXISTS t (key TEXT PRIMARY KEY, value TEXT, ttl REAL NOT NULL)\<close>.
  (the payload column of a cache of type \<^verbatim>\<open>'string'\<close>, the default).
  A row has a key, a nullable payload (\<open>None\<close> is SQL NULL) and an absolute expiry
  time. Times and durations are integers, in milliseconds, as \<^verbatim>\<open>Date.now()\<close> returns
  them; the sums the code forms stay far below \<open>2 ^ 53\<close>, where the arithmetic of
  JavaScript numbers is exact. The table is a list of rows, in insertion order, so that
  the uniqueness of keys is a property to prove and not a consequence of the type.
\<close>

record row =
  key :: string
  val :: "string option"
  ttl :: int

type_synonym table = "row list"

text \<open>\<^verbatim>\<open>SELECT ttl, value FROM t WHERE key = ? LIMIT 1\<close>: the first matching row.\<close>

definition stmt_get :: "string \<Rightarrow> table \<Rightarrow> row option" where
  "stmt_get k t = find (\<lambda>r. key r = k) t"

text \<open>\<^verbatim>\<open>DELETE FROM t WHERE key = ?\<close>\<close>

definition stmt_del :: "string \<Rightarrow> table \<Rightarrow> table" where
  "stmt_del k t = filter (\<lambda>r. key r \<noteq> k) t"

text \<open>\<^verbatim>\<open>UPDATE t SET ttl = ? WHERE key = ?\<close>\<close>

definition stmt_updateTtl :: "int \<Rightarrow> string \<Rightarrow> table \<Rightarrow> table" where
  "stmt_updateTtl x k t = map (\<lambda>r. if key r = k then r\<lparr>ttl := x\<rparr> else r) t"

text \<open>
  \<^verbatim>\<open>INSERT INTO t (key, value, ttl) VALUES ($key, $value, $valid)
  ON CONFLICT(key) DO UPDATE SET value = $value, ttl = $valid\<close>:
  a row whose key conflicts is updated in place, otherwise a new row is added.
\<close>

definition stmt_insert :: "string \<Rightarrow> string \<Rightarrow> int \<Rightarrow> table \<Rightarrow> table" where
  "stmt_insert k v valid t =
     (if k \<in> set (map key t)
      then map (\<lambda>r. if key r = k then r\<lparr>val := Some v, ttl := valid\<rparr> else r) t
      else t @ [\<lparr>key = k, val = Some v, ttl = valid\<rparr>])"

text \<open>\<^verbatim>\<open>DELETE FROM t WHERE ttl < ?\<close>, the purge the constructor runs.\<close>

definition stmt_purge :: "int \<Rightarrow> table \<Rightarrow> table" where
  "stmt_purge x t = filter (\<lambda>r. \<not> ttl r < x) t"

text \<open>The constraint \<^verbatim>\<open>key TEXT PRIMARY KEY\<close>: no two rows share a key.\<close>

definition key_unique :: "table \<Rightarrow> bool" where
  "key_unique t = distinct (map key t)"

section \<open>The Cache class\<close>

text \<open>
  The state of a \<^verbatim>\<open>Cache\<close> object: its grace period \<open>tbd\<close>, the rows of its
  table, and, for every \<^verbatim>\<open>VACUUM\<close> the database has executed, the table that
  command saw (oldest first). \<^verbatim>\<open>VACUUM\<close> changes no row. The fields
  \<^verbatim>\<open>cachePath\<close>, \<^verbatim>\<open>tableName\<close> and \<^verbatim>\<open>type\<close> and the console output take
  no part in what follows and are left out.
\<close>

record cache =
  tbd :: int
  rows :: table
  vacuums :: "table list"

text \<open>
  What \<^verbatim>\<open>get\<close> returns and what the constructor compares it with: JavaScript's
  \<^verbatim>\<open>undefined\<close> and \<^verbatim>\<open>null\<close> are different values under \<^verbatim>\<open>===\<close>.
\<close>

datatype jsval = Undefined | Null | Str string

definition Cache_del :: "string \<Rightarrow> cache \<Rightarrow> cache" where
  "Cache_del k c = c\<lparr>rows := stmt_del k (rows c)\<rparr>"

text \<open>
  \<^verbatim>\<open>set(key, value, ttl = 60 * 1000)\<close>; \<open>now\<close> is the clock reading
  \<^verbatim>\<open>Date.now()\<close> of the call, and \<open>None\<close> an omitted \<^verbatim>\<open>ttl\<close>.
\<close>

definition Cache_set :: "int \<Rightarrow> string \<Rightarrow> string \<Rightarrow> int option \<Rightarrow> cache \<Rightarrow> cache" where
  "Cache_set now k v ttl_arg c =
     (let valid = now + (case ttl_arg of None \<Rightarrow> 60 * 1000 | Some x \<Rightarrow> x)
      in c\<lparr>rows := stmt_insert k v valid (rows c)\<rparr>)"

text \<open>
  \<^verbatim>\<open>get(key)\<close> returns its result together with the state it leaves: an expired
  row and a row whose payload is \<^verbatim>\<open>== null\<close> are deleted.
\<close>

definition Cache_get :: "int \<Rightarrow> string \<Rightarrow> cache \<Rightarrow> jsval \<times> cache" where
  "Cache_get now k c =
     (case stmt_get k (rows c) of
        None \<Rightarrow> (Null, c)
      | Some rv \<Rightarrow>
          if ttl rv < now then (Null, Cache_del k c)
          else (case val rv of
                  None \<Rightarrow> (Null, Cache_del k c)
                | Some v \<Rightarrow> (Str v, c)))"

definition Cache_updateTtl :: "int \<Rightarrow> string \<Rightarrow> int \<Rightarrow> cache \<Rightarrow> cache" where
  "Cache_updateTtl now k ttl_arg c = c\<lparr>rows := stmt_updateTtl (now + ttl_arg) k (rows c)\<rparr>"

text \<open>\<^verbatim>\<open>this.db.exec('VACUUM;')\<close>\<close>

definition exec_vacuum :: "cache \<Rightarrow> cache" where
  "exec_vacuum c = c\<lparr>vacuums := vacuums c @ [rows c]\<rparr>"

subsection \<open>The constructor\<close>

text \<open>
  The \<^verbatim>\<open>Date\<close> object the constructor creates, as the readings it takes from it.
\<close>

record date =
  getTime :: int
  getFullYear :: int
  getMonth :: int
  getDate :: int
  getUTCDay :: int

text \<open>A number inside a template literal: its decimal digits, with a sign if negative.\<close>

definition digit_char :: "nat \<Rightarrow> char" where
  "digit_char n = char_of (48 + n)"

fun digits :: "nat \<Rightarrow> string" where
  "digits n = (if n < 10 then [digit_char n] else digits (n div 10) @ [digit_char (n mod 10)])"

declare digits.simps [simp del]

definition num_string :: "int \<Rightarrow> string" where
  "num_string i = (if i < 0 then CHR ''-'' # digits (nat (- i)) else digits (nat i))"

definition dateString :: "date \<Rightarrow> string" where
  "dateString d =
     num_string (getFullYear d) @ ''-'' @ num_string (getMonth d + 1) @ ''-'' @ num_string (getDate d)"

definition LAST_VACUUM :: string where
  "LAST_VACUUM = ''__LAST_VACUUM''"

definition ten_years :: int where
  "ten_years = 10 * 365 * 60 * 60 * 24 * 1000"

text \<open>
  The purge on startup (\<^verbatim>\<open>ttl + tbd < now => ttl < now - tbd\<close>, as its comment
  says): \<^verbatim>\<open>const now = date.getTime() - this.tbd\<close>, then the purge statement.
\<close>

definition startup_purge :: "int \<Rightarrow> date \<Rightarrow> table \<Rightarrow> table" where
  "startup_purge the_tbd d t = (let now = getTime d - the_tbd in stmt_purge now t)"

text \<open>
  \<open>Cache_constructor tbd_arg d now_get now_set t\<close>: \<open>tbd_arg\<close> is the option
  \<^verbatim>\<open>tbd\<close> (\<open>None\<close> when it is not given), \<open>d\<close> the \<^verbatim>\<open>new Date()\<close> of the
  constructor, \<open>now_get\<close> and \<open>now_set\<close> the clock readings of its calls of
  \<^verbatim>\<open>get\<close> and \<^verbatim>\<open>set\<close>, and \<open>t\<close> the table found in the file (empty when
  \<^verbatim>\<open>CREATE TABLE IF NOT EXISTS\<close> has just created it).
\<close>

definition Cache_constructor :: "int option \<Rightarrow> date \<Rightarrow> int \<Rightarrow> int \<Rightarrow> table \<Rightarrow> cache" where
  "Cache_constructor tbd_arg d now_get now_set t =
     (let the_tbd = (case tbd_arg of None \<Rightarrow> 60 * 1000 | Some x \<Rightarrow> x);
          c0 = \<lparr>tbd = the_tbd, rows = startup_purge the_tbd d t, vacuums = []\<rparr>;
          (lastVaccum, c1) = Cache_get now_get LAST_VACUUM c0
      in if lastVaccum = Undefined \<or> (lastVaccum \<noteq> Str (dateString d) \<and> getUTCDay d = 6)
         then exec_vacuum (Cache_set now_set LAST_VACUUM (dateString d) (Some ten_years) c1)
         else c1)"

section \<open>The array codec\<close>

text \<open>
  Modelled from the spec: \<^verbatim>\<open>fastStringArrayJoin\<close> is imported from the package
  \<^verbatim>\<open>foxts\<close> and its body is not among the sources. The specification describes it as
  concatenating an ordered sequence of strings with the separator between consecutive
  items, the empty sequence giving the empty string.
\<close>

fun fastStringArrayJoin :: "string list \<Rightarrow> string \<Rightarrow> string" where
  "fastStringArrayJoin [] sep = []"
| "fastStringArrayJoin [x] sep = x"
| "fastStringArrayJoin (x # y # ys) sep = x @ sep @ fastStringArrayJoin (y # ys) sep"

text \<open>
  \<^verbatim>\<open>String.prototype.split\<close> with a string separator. \<open>split_from sep acc s\<close> scans
  \<open>s\<close> with the characters of the current piece in \<open>acc\<close>, latest first. An empty
  separator splits between all characters, and the empty string then has no piece.
\<close>

function split_from :: "string \<Rightarrow> string \<Rightarrow> string \<Rightarrow> string list" where
  "split_from sep acc [] = [rev acc]"
| "split_from sep acc (c # cs) =
     (if sep \<noteq> [] \<and> prefix sep (c # cs)
      then rev acc # split_from sep [] (drop (length sep) (c # cs))
      else split_from sep (c # acc) cs)"
  by pat_completeness auto
termination
  by (relation "measure (\<lambda>(sep, acc, s). length s)") auto

definition String_split :: "string \<Rightarrow> string \<Rightarrow> string list" where
  "String_split s sep = (if sep = [] then map (\<lambda>c. [c]) s else split_from sep [] s)"

definition separator :: string where
  "separator = [CHR 0x00]"

definition serializeArray :: "string list \<Rightarrow> string" where
  "serializeArray arr = fastStringArrayJoin arr separator"

definition deserializeArray :: "string \<Rightarrow> string list" where
  "deserializeArray str = String_split str separator"

section \<open>The statements, one by one\<close>

lemma stmt_get_None_iff: "stmt_get k t = None \<longleftrightarrow> k \<notin> key ` set t"
  by (auto simp: stmt_get_def find_None_iff)

lemma stmt_get_Some_key: "stmt_get k t = Some r \<Longrightarrow> key r = k \<and> r \<in> set t"
  by (auto simp: stmt_get_def find_Some_iff)

lemma stmt_del_absent: "k \<notin> key ` set (stmt_del k t)"
  by (auto simp: stmt_del_def)

lemma stmt_get_del_same: "stmt_get k (stmt_del k t) = None"
  by (simp add: stmt_get_None_iff stmt_del_absent)

lemma stmt_get_del_other: "k' \<noteq> k \<Longrightarrow> stmt_get k' (stmt_del k t) = stmt_get k' t"
  by (induction t) (auto simp: stmt_get_def stmt_del_def)

lemma stmt_del_noop: "k \<notin> key ` set t \<Longrightarrow> stmt_del k t = t"
  by (induction t) (auto simp: stmt_del_def)

lemma stmt_del_idem: "stmt_del k (stmt_del k t) = stmt_del k t"
  by (simp add: stmt_del_def)

lemma key_unique_del: "key_unique t \<Longrightarrow> key_unique (stmt_del k t)"
  by (simp add: key_unique_def stmt_del_def distinct_map_filter)

lemma key_unique_purge: "key_unique t \<Longrightarrow> key_unique (stmt_purge x t)"
  by (simp add: key_unique_def stmt_purge_def distinct_map_filter)

lemma map_key_updateTtl: "map key (stmt_updateTtl x k t) = map key t"
  by (induction t) (auto simp: stmt_updateTtl_def)

lemma map_val_updateTtl: "map val (stmt_updateTtl x k t) = map val t"
  by (induction t) (auto simp: stmt_updateTtl_def)

lemma key_unique_updateTtl: "key_unique t \<Longrightarrow> key_unique (stmt_updateTtl x k t)"
  by (simp add: key_unique_def map_key_updateTtl)

lemma map_key_insert:
  "map key (stmt_insert k v x t) = (if k \<in> key ` set t then map key t else map key t @ [k])"
  by (induction t) (auto simp: stmt_insert_def)

lemma key_unique_insert: "key_unique t \<Longrightarrow> key_unique (stmt_insert k v x t)"
  by (simp add: key_unique_def map_key_insert)

lemma stmt_get_insert_same:
  "stmt_get k (stmt_insert k v x t) = Some \<lparr>key = k, val = Some v, ttl = x\<rparr>"
proof (cases "k \<in> key ` set t")
  case True
  then have "find (\<lambda>r. key r = k) (map (\<lambda>r. if key r = k then r\<lparr>val := Some v, ttl := x\<rparr> else r) t)
      = Some \<lparr>key = k, val = Some v, ttl = x\<rparr>"
    by (induction t) auto
  with True show ?thesis by (simp add: stmt_get_def stmt_insert_def)
next
  case False
  then have "find (\<lambda>r. key r = k) (t @ [\<lparr>key = k, val = Some v, ttl = x\<rparr>])
      = Some \<lparr>key = k, val = Some v, ttl = x\<rparr>"
    by (induction t) auto
  with False show ?thesis by (simp add: stmt_get_def stmt_insert_def)
qed

lemma stmt_get_insert_other:
  "k' \<noteq> k \<Longrightarrow> stmt_get k' (stmt_insert k v x t) = stmt_get k' t"
proof -
  assume ne: "k' \<noteq> k"
  have upd: "find (\<lambda>r. key r = k') (map (\<lambda>r. if key r = k then r\<lparr>val := Some v, ttl := x\<rparr> else r) t)
      = find (\<lambda>r. key r = k') t"
    using ne by (induction t) auto
  have app: "find (\<lambda>r. key r = k') (t @ [\<lparr>key = k, val = Some v, ttl = x\<rparr>])
      = find (\<lambda>r. key r = k') t"
    using ne by (induction t) auto
  show ?thesis by (simp add: stmt_get_def stmt_insert_def upd app)
qed

lemma count_key_unique:
  "key_unique t \<Longrightarrow> length (filter (\<lambda>r. key r = k) t) = (if k \<in> key ` set t then 1 else 0)"
  by (induction t) (auto simp: key_unique_def)

lemma count_insert:
  "key_unique t \<Longrightarrow> length (filter (\<lambda>r. key r = k) (stmt_insert k v x t)) = 1"
proof -
  assume "key_unique t"
  then have "key_unique (stmt_insert k v x t)"
    by (rule key_unique_insert)
  moreover have "k \<in> set (map key (stmt_insert k v x t))"
    by (simp add: map_key_insert)
  ultimately show ?thesis
    by (simp add: count_key_unique)
qed

lemma stmt_get_updateTtl_same:
  "stmt_get k t = Some r \<Longrightarrow> stmt_get k (stmt_updateTtl x k t) = Some (r\<lparr>ttl := x\<rparr>)"
  by (induction t) (auto simp: stmt_get_def stmt_updateTtl_def)

lemma stmt_get_updateTtl_other:
  "k' \<noteq> k \<Longrightarrow> stmt_get k' (stmt_updateTtl x k t) = stmt_get k' t"
  by (induction t) (auto simp: stmt_get_def stmt_updateTtl_def)

lemma stmt_updateTtl_noop: "k \<notin> key ` set t \<Longrightarrow> stmt_updateTtl x k t = t"
  by (induction t) (auto simp: stmt_updateTtl_def)

section \<open>Reading an expired entry\<close>

text \<open>
  Claim C2. When the row that \<^verbatim>\<open>get(k)\<close> selects for \<open>k\<close> has an expiry strictly
  below the clock reading of the call, \<^verbatim>\<open>get(k)\<close> returns \<^verbatim>\<open>null\<close> ("not
  found") and deletes: the table it leaves is the old one without the rows of key
  \<open>k\<close>, so no row for \<open>k\<close> exists and a further lookup finds nothing.
\<close>

theorem get_expired_deletes:
  assumes "stmt_get k (rows c) = Some rv" and "ttl rv < now"
  shows "Cache_get now k c = (Null, Cache_del k c)
    \<and> rows (Cache_del k c) = filter (\<lambda>r. key r \<noteq> k) (rows c)
    \<and> k \<notin> key ` set (rows (Cache_del k c))
    \<and> stmt_get k (rows (Cache_del k c)) = None"
proof -
  from assms have "Cache_get now k c = (Null, Cache_del k c)"
    by (simp add: Cache_get_def)
  moreover have "rows (Cache_del k c) = filter (\<lambda>r. key r \<noteq> k) (rows c)"
    by (simp add: Cache_del_def stmt_del_def)
  moreover have "k \<notin> key ` set (rows (Cache_del k c))"
    by (simp add: Cache_del_def stmt_del_absent)
  moreover have "stmt_get k (rows (Cache_del k c)) = None"
    by (simp add: Cache_del_def stmt_get_del_same)
  ultimately show ?thesis by simp
qed

theorem get_expired_deletes_witness:
  "stmt_get ''k'' (rows \<lparr>tbd = 60000, rows = [\<lparr>key = ''a'', val = Some ''x'', ttl = 500\<rparr>, \<lparr>key = ''k'', val = Some ''v'', ttl = 10\<rparr>], vacuums = []\<rparr>)
     = Some \<lparr>key = ''k'', val = Some ''v'', ttl = 10\<rparr>
   \<and> (10::int) < 20
   \<and> Cache_get 20 ''k'' \<lparr>tbd = 60000, rows = [\<lparr>key = ''a'', val = Some ''x'', ttl = 500\<rparr>, \<lparr>key = ''k'', val = Some ''v'', ttl = 10\<rparr>], vacuums = []\<rparr>
     = (Null, \<lparr>tbd = 60000, rows = [\<lparr>key = ''a'', val = Some ''x'', ttl = 500\<rparr>], vacuums = []\<rparr>)"
proof -
  let ?c = "\<lparr>tbd = 60000, rows = [\<lparr>key = ''a'', val = Some ''x'', ttl = 500\<rparr>, \<lparr>key = ''k'', val = Some ''v'', ttl = 10\<rparr>], vacuums = []\<rparr>"
  let ?rv = "\<lparr>key = ''k'', val = Some ''v'', ttl = 10\<rparr>"
  have h1: "stmt_get ''k'' (rows ?c) = Some ?rv"
    by (simp add: stmt_get_def)
  have h2: "ttl ?rv < 20" by simp
  have d: "Cache_del ''k'' ?c = \<lparr>tbd = 60000, rows = [\<lparr>key = ''a'', val = Some ''x'', ttl = 500\<rparr>], vacuums = []\<rparr>"
    by (simp add: Cache_del_def stmt_del_def)
  from get_expired_deletes [OF h1 h2] h1 d show ?thesis by simp
qed

section \<open>Reading an entry whose payload is null or empty\<close>

text \<open>
  Claim C3 says that \<^verbatim>\<open>get(k)\<close> deletes a fresh row and returns "not found" when
  its payload is the null or empty sentinel, in particular the empty string. The guard of
  the code is \<^verbatim>\<open>rv.value == null\<close>, which holds of \<^verbatim>\<open>null\<close> and
  \<^verbatim>\<open>undefined\<close> only: an empty string is returned like any other string and its
  row is kept, as the evaluation below shows for a fresh row whose payload is the empty
  string.
\<close>

theorem get_empty_string_counterexample:
  "stmt_get ''k'' [\<lparr>key = ''k'', val = Some '''', ttl = 100\<rparr>] = Some \<lparr>key = ''k'', val = Some '''', ttl = 100\<rparr>
   \<and> \<not> ttl \<lparr>key = ''k'', val = Some '''', ttl = 100\<rparr> < 50
   \<and> fst (Cache_get 50 ''k'' \<lparr>tbd = 60000, rows = [\<lparr>key = ''k'', val = Some '''', ttl = 100\<rparr>], vacuums = []\<rparr>) = Str ''''
   \<and> fst (Cache_get 50 ''k'' \<lparr>tbd = 60000, rows = [\<lparr>key = ''k'', val = Some '''', ttl = 100\<rparr>], vacuums = []\<rparr>) \<noteq> Null
   \<and> rows (snd (Cache_get 50 ''k'' \<lparr>tbd = 60000, rows = [\<lparr>key = ''k'', val = Some '''', ttl = 100\<rparr>], vacuums = []\<rparr>))
       = [\<lparr>key = ''k'', val = Some '''', ttl = 100\<rparr>]"
  by (simp add: Cache_get_def stmt_get_def)

text \<open>
  Claim C3, amended. For a row that \<^verbatim>\<open>get(k)\<close> selects and that is not expired: if
  its payload is null, the call returns \<^verbatim>\<open>null\<close> and leaves the table without any
  row of key \<open>k\<close>; if its payload is a string, empty or not, the call returns that
  string and changes nothing.
\<close>

theorem get_null_value_deletes:
  assumes "stmt_get k (rows c) = Some rv" and "\<not> ttl rv < now"
  shows "(val rv = None \<longrightarrow>
            Cache_get now k c = (Null, Cache_del k c)
          \<and> rows (Cache_del k c) = filter (\<lambda>r. key r \<noteq> k) (rows c)
          \<and> k \<notin> key ` set (rows (Cache_del k c)))
       \<and> (\<forall>v. val rv = Some v \<longrightarrow> Cache_get now k c = (Str v, c))"
proof -
  have null: "Cache_get now k c = (Null, Cache_del k c)" if "val rv = None"
    using assms that by (simp add: Cache_get_def)
  have what: "rows (Cache_del k c) = filter (\<lambda>r. key r \<noteq> k) (rows c)"
    by (simp add: Cache_del_def stmt_del_def)
  have gone: "k \<notin> key ` set (rows (Cache_del k c))"
    by (simp add: Cache_del_def stmt_del_absent)
  have str: "Cache_get now k c = (Str v, c)" if "val rv = Some v" for v
    using assms that by (simp add: Cache_get_def)
  from null what gone str show ?thesis by simp
qed

theorem get_null_value_deletes_witness:
  "Cache_get 50 ''k'' \<lparr>tbd = 60000, rows = [\<lparr>key = ''k'', val = None, ttl = 100\<rparr>], vacuums = []\<rparr>
     = (Null, \<lparr>tbd = 60000, rows = [], vacuums = []\<rparr>)
   \<and> Cache_get 50 ''k'' \<lparr>tbd = 60000, rows = [\<lparr>key = ''k'', val = Some '''', ttl = 100\<rparr>], vacuums = []\<rparr>
     = (Str '''', \<lparr>tbd = 60000, rows = [\<lparr>key = ''k'', val = Some '''', ttl = 100\<rparr>], vacuums = []\<rparr>)"
proof -
  let ?n = "\<lparr>key = ''k'', val = None, ttl = 100\<rparr>"
  let ?e = "\<lparr>key = ''k'', val = Some '''', ttl = 100\<rparr>"
  let ?cn = "\<lparr>tbd = 60000, rows = [?n], vacuums = []\<rparr>"
  let ?ce = "\<lparr>tbd = 60000, rows = [?e], vacuums = []\<rparr>"
  have n1: "stmt_get ''k'' (rows ?cn) = Some ?n" by (simp add: stmt_get_def)
  have n2: "\<not> ttl ?n < 50" by simp
  have e1: "stmt_get ''k'' (rows ?ce) = Some ?e" by (simp add: stmt_get_def)
  have e2: "\<not> ttl ?e < 50" by simp
  have d: "Cache_del ''k'' ?cn = \<lparr>tbd = 60000, rows = [], vacuums = []\<rparr>"
    by (simp add: Cache_del_def stmt_del_def)
  from get_null_value_deletes [OF n1 n2] get_null_value_deletes [OF e1 e2] d
  show ?thesis by simp
qed

section \<open>Round trip of set and get\<close>

text \<open>
  Claim C6. \<^verbatim>\<open>set(k, v, ttl)\<close> at clock reading \<open>now\<close> stores the row
  \<open>(k, v, now + ttl)\<close> (with \<open>ttl = 60000\<close> when omitted), and a \<^verbatim>\<open>get(k)\<close>
  whose clock reading \<open>now'\<close> is not past that expiry returns exactly \<open>v\<close> and
  leaves the state as it was, so that every further such \<^verbatim>\<open>get\<close> finds the same
  row again. This holds for every string \<open>v\<close>, whatever the table held before.
\<close>

theorem set_get_roundtrip:
  assumes "now' \<le> now + (case ttl_arg of None \<Rightarrow> 60 * 1000 | Some x \<Rightarrow> x)"
  shows "stmt_get k (rows (Cache_set now k v ttl_arg c))
           = Some \<lparr>key = k, val = Some v, ttl = now + (case ttl_arg of None \<Rightarrow> 60 * 1000 | Some x \<Rightarrow> x)\<rparr>
       \<and> Cache_get now' k (Cache_set now k v ttl_arg c) = (Str v, Cache_set now k v ttl_arg c)"
proof -
  let ?valid = "now + (case ttl_arg of None \<Rightarrow> 60 * 1000 | Some x \<Rightarrow> x)"
  have stored: "stmt_get k (rows (Cache_set now k v ttl_arg c)) = Some \<lparr>key = k, val = Some v, ttl = ?valid\<rparr>"
    by (simp add: Cache_set_def stmt_get_insert_same)
  from assms have "\<not> ?valid < now'" by simp
  with stored show ?thesis
    by (simp add: Cache_get_def)
qed

theorem set_get_roundtrip_witness:
  "(1500::int) \<le> 1000 + 500
   \<and> Cache_get 1500 ''k'' (Cache_set 1000 ''k'' ''v'' (Some 500) \<lparr>tbd = 60000, rows = [], vacuums = []\<rparr>)
     = (Str ''v'', \<lparr>tbd = 60000, rows = [\<lparr>key = ''k'', val = Some ''v'', ttl = 1500\<rparr>], vacuums = []\<rparr>)"
proof -
  have h: "(1500::int) \<le> 1000 + (case Some 500 of None \<Rightarrow> 60 * 1000 | Some x \<Rightarrow> x)" by simp
  have s: "Cache_set 1000 ''k'' ''v'' (Some 500) \<lparr>tbd = 60000, rows = [], vacuums = []\<rparr>
      = \<lparr>tbd = 60000, rows = [\<lparr>key = ''k'', val = Some ''v'', ttl = 1500\<rparr>], vacuums = []\<rparr>"
    by (simp add: Cache_set_def stmt_insert_def)
  from set_get_roundtrip [OF h, of "''k''" "''v''" "\<lparr>tbd = 60000, rows = [], vacuums = []\<rparr>"] s
  show ?thesis by simp
qed

section \<open>Extending the expiry\<close>

text \<open>
  Claim C7. When \<open>k\<close> has a row, \<^verbatim>\<open>updateTtl(k, ttl)\<close> at clock reading
  \<open>now\<close> sets its expiry to \<open>now + ttl\<close> and leaves its payload alone, so that a
  \<^verbatim>\<open>get(k)\<close> not past the new expiry returns the original string; the keys and
  payloads of all rows and the rows of other keys are unchanged. When \<open>k\<close> has no
  row, the state is unchanged. The operation is a total function: it has no failing
  branch.
\<close>

theorem updateTtl_frame:
  "(\<forall>rv. stmt_get k (rows c) = Some rv \<longrightarrow>
        stmt_get k (rows (Cache_updateTtl now k x c)) = Some (rv\<lparr>ttl := now + x\<rparr>)
      \<and> (\<forall>v now'. val rv = Some v \<and> now' \<le> now + x \<longrightarrow>
            fst (Cache_get now' k (Cache_updateTtl now k x c)) = Str v))
   \<and> map key (rows (Cache_updateTtl now k x c)) = map key (rows c)
   \<and> map val (rows (Cache_updateTtl now k x c)) = map val (rows c)
   \<and> (\<forall>k'. k' \<noteq> k \<longrightarrow> stmt_get k' (rows (Cache_updateTtl now k x c)) = stmt_get k' (rows c))
   \<and> (stmt_get k (rows c) = None \<longrightarrow> Cache_updateTtl now k x c = c)"
proof -
  have present: "stmt_get k (rows (Cache_updateTtl now k x c)) = Some (rv\<lparr>ttl := now + x\<rparr>)"
    if "stmt_get k (rows c) = Some rv" for rv
    using that by (simp add: Cache_updateTtl_def stmt_get_updateTtl_same)
  have fresh: "fst (Cache_get now' k (Cache_updateTtl now k x c)) = Str v"
    if "stmt_get k (rows c) = Some rv" and "val rv = Some v" and "now' \<le> now + x" for rv v now'
    using present [OF that(1)] that(2,3) by (simp add: Cache_get_def)
  have keys: "map key (rows (Cache_updateTtl now k x c)) = map key (rows c)"
    by (simp add: Cache_updateTtl_def map_key_updateTtl)
  have vals: "map val (rows (Cache_updateTtl now k x c)) = map val (rows c)"
    by (simp add: Cache_updateTtl_def map_val_updateTtl)
  have others: "stmt_get k' (rows (Cache_updateTtl now k x c)) = stmt_get k' (rows c)"
    if "k' \<noteq> k" for k'
    using that by (simp add: Cache_updateTtl_def stmt_get_updateTtl_other)
  have absent: "Cache_updateTtl now k x c = c" if "stmt_get k (rows c) = None"
    using that by (simp add: Cache_updateTtl_def stmt_get_None_iff stmt_updateTtl_noop)
  from present fresh keys vals others absent show ?thesis by blast
qed

theorem updateTtl_frame_witness:
  "stmt_get ''k'' (rows (Cache_updateTtl 1000 ''k'' 100000 \<lparr>tbd = 60000, rows = [\<lparr>key = ''k'', val = Some ''x'', ttl = 1100\<rparr>], vacuums = []\<rparr>))
     = Some \<lparr>key = ''k'', val = Some ''x'', ttl = 101000\<rparr>
   \<and> fst (Cache_get 1150 ''k'' (Cache_updateTtl 1000 ''k'' 100000 \<lparr>tbd = 60000, rows = [\<lparr>key = ''k'', val = Some ''x'', ttl = 1100\<rparr>], vacuums = []\<rparr>)) = Str ''x''
   \<and> stmt_get ''a'' (rows (Cache_updateTtl 1000 ''k'' 100000 \<lparr>tbd = 60000, rows = [\<lparr>key = ''k'', val = Some ''x'', ttl = 1100\<rparr>], vacuums = []\<rparr>)) = None
   \<and> Cache_updateTtl 1000 ''a'' 100000 \<lparr>tbd = 60000, rows = [\<lparr>key = ''k'', val = Some ''x'', ttl = 1100\<rparr>], vacuums = []\<rparr>
     = \<lparr>tbd = 60000, rows = [\<lparr>key = ''k'', val = Some ''x'', ttl = 1100\<rparr>], vacuums = []\<rparr>"
proof -
  let ?r = "\<lparr>key = ''k'', val = Some ''x'', ttl = 1100\<rparr>"
  let ?c = "\<lparr>tbd = 60000, rows = [?r], vacuums = []\<rparr>"
  have present: "stmt_get ''k'' (rows ?c) = Some ?r" by (simp add: stmt_get_def)
  have absent: "stmt_get ''a'' (rows ?c) = None" by (simp add: stmt_get_def)
  have other: "''a'' \<noteq> ''k''" by simp
  have fresh: "val ?r = Some ''x'' \<and> (1150::int) \<le> 1000 + 100000" by simp
  from updateTtl_frame [of "''k''" ?c 1000 100000] present fresh other absent
  have abc: "stmt_get ''k'' (rows (Cache_updateTtl 1000 ''k'' 100000 ?c)) = Some \<lparr>key = ''k'', val = Some ''x'', ttl = 101000\<rparr>
    \<and> fst (Cache_get 1150 ''k'' (Cache_updateTtl 1000 ''k'' 100000 ?c)) = Str ''x''
    \<and> stmt_get ''a'' (rows (Cache_updateTtl 1000 ''k'' 100000 ?c)) = None"
    by simp
  from updateTtl_frame [of "''a''" ?c 1000 100000] absent
  have d: "Cache_updateTtl 1000 ''a'' 100000 ?c = ?c" by simp
  from abc d show ?thesis by simp
qed

section \<open>Deleting\<close>

text \<open>
  Claim C8. \<^verbatim>\<open>del(k)\<close> is total and idempotent: doing it twice leaves the state
  of doing it once; it removes exactly the rows of key \<open>k\<close>, after it no row of key
  \<open>k\<close> exists, and it changes nothing when there was none.
\<close>

theorem del_idempotent:
  "Cache_del k (Cache_del k c) = Cache_del k c
   \<and> rows (Cache_del k c) = filter (\<lambda>r. key r \<noteq> k) (rows c)
   \<and> k \<notin> key ` set (rows (Cache_del k c))
   \<and> (k \<notin> key ` set (rows c) \<longrightarrow> Cache_del k c = c)"
proof -
  have twice: "Cache_del k (Cache_del k c) = Cache_del k c"
    by (simp add: Cache_del_def stmt_del_idem)
  have what: "rows (Cache_del k c) = filter (\<lambda>r. key r \<noteq> k) (rows c)"
    by (simp add: Cache_del_def stmt_del_def)
  have gone: "k \<notin> key ` set (rows (Cache_del k c))"
    by (simp add: Cache_del_def stmt_del_absent)
  have noop: "Cache_del k c = c" if "k \<notin> key ` set (rows c)"
    using that by (simp add: Cache_del_def stmt_del_noop)
  from twice what gone noop show ?thesis by simp
qed

theorem del_idempotent_witness:
  "Cache_del ''k'' (Cache_del ''k'' \<lparr>tbd = 60000, rows = [\<lparr>key = ''k'', val = Some ''v'', ttl = 100\<rparr>, \<lparr>key = ''a'', val = Some ''x'', ttl = 7\<rparr>], vacuums = []\<rparr>)
     = \<lparr>tbd = 60000, rows = [\<lparr>key = ''a'', val = Some ''x'', ttl = 7\<rparr>], vacuums = []\<rparr>
   \<and> Cache_del ''k'' \<lparr>tbd = 60000, rows = [\<lparr>key = ''a'', val = Some ''x'', ttl = 7\<rparr>], vacuums = []\<rparr>
     = \<lparr>tbd = 60000, rows = [\<lparr>key = ''a'', val = Some ''x'', ttl = 7\<rparr>], vacuums = []\<rparr>"
proof -
  let ?a = "\<lparr>key = ''a'', val = Some ''x'', ttl = 7\<rparr>"
  let ?c = "\<lparr>tbd = 60000, rows = [\<lparr>key = ''k'', val = Some ''v'', ttl = 100\<rparr>, ?a], vacuums = []\<rparr>"
  let ?c' = "\<lparr>tbd = 60000, rows = [?a], vacuums = []\<rparr>"
  have absent: "''k'' \<notin> key ` set (rows ?c')" by simp
  have once: "Cache_del ''k'' ?c = ?c'" by (simp add: Cache_del_def stmt_del_def)
  from del_idempotent [of "''k''" ?c] del_idempotent [of "''k''" ?c'] absent once
  show ?thesis by simp
qed

section \<open>The constructor: startup purge\<close>

text \<open>
  What the constructor does to the rows, with the result of its \<^verbatim>\<open>get\<close> taken
  apart. \<^verbatim>\<open>get\<close> never returns \<^verbatim>\<open>undefined\<close>, so the first disjunct of the
  constructor's test is never true.
\<close>

lemma get_never_undefined: "fst (Cache_get now k c) \<noteq> Undefined"
  by (simp add: Cache_get_def split: option.splits)

lemma get_absent: "k \<notin> key ` set (rows c) \<Longrightarrow> Cache_get now k c = (Null, c)"
  by (simp add: Cache_get_def stmt_get_None_iff [symmetric])

lemma rows_get_other:
  "r \<in> set (rows (snd (Cache_get now k c))) \<longleftrightarrow> r \<in> set (rows c)" if "key r \<noteq> k"
  using that by (auto simp: Cache_get_def Cache_del_def stmt_del_def split: option.splits)

lemma rows_set_other:
  "r \<in> set (rows (Cache_set now k v a c)) \<longleftrightarrow> r \<in> set (rows c)" if "key r \<noteq> k"
  using that by (auto simp: Cache_set_def stmt_insert_def Let_def)

lemma rows_constructor:
  "rows (Cache_constructor tbd_arg d ng ns t) =
     (let the_tbd = (case tbd_arg of None \<Rightarrow> 60 * 1000 | Some x \<Rightarrow> x);
          c0 = \<lparr>tbd = the_tbd, rows = startup_purge the_tbd d t, vacuums = []\<rparr>;
          c1 = snd (Cache_get ng LAST_VACUUM c0)
      in if fst (Cache_get ng LAST_VACUUM c0) \<noteq> Str (dateString d) \<and> getUTCDay d = 6
         then rows (Cache_set ns LAST_VACUUM (dateString d) (Some ten_years) c1)
         else rows c1)"
proof -
  have "fst (Cache_get ng LAST_VACUUM c) \<noteq> Undefined" for c
    by (simp add: Cache_get_def split: option.splits)
  then show ?thesis
    by (simp add: Cache_constructor_def Let_def exec_vacuum_def case_prod_beta)
qed

lemma vacuums_constructor:
  "vacuums (Cache_constructor tbd_arg d ng ns t) =
     (let the_tbd = (case tbd_arg of None \<Rightarrow> 60 * 1000 | Some x \<Rightarrow> x);
          c0 = \<lparr>tbd = the_tbd, rows = startup_purge the_tbd d t, vacuums = []\<rparr>
      in if fst (Cache_get ng LAST_VACUUM c0) \<noteq> Str (dateString d) \<and> getUTCDay d = 6
         then [rows (Cache_constructor tbd_arg d ng ns t)]
         else [])"
proof -
  have v: "vacuums (snd (Cache_get ng LAST_VACUUM c)) = vacuums c" for c
    by (simp add: Cache_get_def Cache_del_def split: option.splits)
  show ?thesis
    by (simp add: Cache_constructor_def Let_def exec_vacuum_def case_prod_beta
        get_never_undefined Cache_set_def v)
qed

text \<open>
  Claim C4. The startup purge of the constructor keeps exactly the rows whose expiry is
  at least \<open>now - tbd\<close>, in their order: every row of the table found with
  \<open>expiry < now - tbd\<close> is removed, with no read before it, and every row with
  \<open>expiry \<ge> now - tbd\<close> is retained. At the end of the whole constructor this is still
  so for every row whose key is not the sentinel's (\<open>tbd\<close> being 60000 when the option
  is not given): the sentinel's own row is the only one the rest of the constructor
  may delete or rewrite.
\<close>

theorem startup_purge_exact:
  "startup_purge b d t = filter (\<lambda>r. getTime d - b \<le> ttl r) t
   \<and> (\<forall>r \<in> set t. ttl r < getTime d - b \<longrightarrow> r \<notin> set (startup_purge b d t))
   \<and> (\<forall>r \<in> set t. getTime d - b \<le> ttl r \<longrightarrow> r \<in> set (startup_purge b d t))
   \<and> (\<forall>r. key r \<noteq> LAST_VACUUM \<longrightarrow>
         (r \<in> set (rows (Cache_constructor tbd_arg d now_get now_set t))
            \<longleftrightarrow> r \<in> set t \<and> getTime d - (case tbd_arg of None \<Rightarrow> 60 * 1000 | Some x \<Rightarrow> x) \<le> ttl r))"
proof -
  have eq: "startup_purge b d t = filter (\<lambda>r. getTime d - b \<le> ttl r) t" for b
    by (simp add: startup_purge_def stmt_purge_def not_less)
  have ctor: "r \<in> set (rows (Cache_constructor tbd_arg d now_get now_set t))
      \<longleftrightarrow> r \<in> set t \<and> getTime d - (case tbd_arg of None \<Rightarrow> 60 * 1000 | Some x \<Rightarrow> x) \<le> ttl r"
    if "key r \<noteq> LAST_VACUUM" for r
    using that by (simp add: rows_constructor Let_def rows_set_other rows_get_other eq)
  from eq [of b] ctor show ?thesis by auto
qed

theorem startup_purge_exact_witness:
  "startup_purge 60000 \<lparr>getTime = 1793793600000, getFullYear = 2026, getMonth = 10, getDate = 4, getUTCDay = 3\<rparr>
      [\<lparr>key = ''a'', val = Some ''x'', ttl = 1793793539999\<rparr>, \<lparr>key = ''b'', val = Some ''y'', ttl = 1793793540000\<rparr>]
     = [\<lparr>key = ''b'', val = Some ''y'', ttl = 1793793540000\<rparr>]
   \<and> \<lparr>key = ''a'', val = Some ''x'', ttl = 1793793539999\<rparr> \<notin> set (rows (Cache_constructor None
        \<lparr>getTime = 1793793600000, getFullYear = 2026, getMonth = 10, getDate = 4, getUTCDay = 3\<rparr> 1793793600001 1793793600002
        [\<lparr>key = ''a'', val = Some ''x'', ttl = 1793793539999\<rparr>, \<lparr>key = ''b'', val = Some ''y'', ttl = 1793793540000\<rparr>]))
   \<and> \<lparr>key = ''b'', val = Some ''y'', ttl = 1793793540000\<rparr> \<in> set (rows (Cache_constructor None
        \<lparr>getTime = 1793793600000, getFullYear = 2026, getMonth = 10, getDate = 4, getUTCDay = 3\<rparr> 1793793600001 1793793600002
        [\<lparr>key = ''a'', val = Some ''x'', ttl = 1793793539999\<rparr>, \<lparr>key = ''b'', val = Some ''y'', ttl = 1793793540000\<rparr>]))"
proof -
  let ?d = "\<lparr>getTime = 1793793600000, getFullYear = 2026, getMonth = 10, getDate = 4, getUTCDay = 3\<rparr>"
  let ?a = "\<lparr>key = ''a'', val = Some ''x'', ttl = 1793793539999\<rparr>"
  let ?b = "\<lparr>key = ''b'', val = Some ''y'', ttl = 1793793540000\<rparr>"
  have keys: "key ?a \<noteq> LAST_VACUUM \<and> key ?b \<noteq> LAST_VACUUM"
    by (simp add: LAST_VACUUM_def)
  have stale: "?a \<in> set [?a, ?b] \<and> ttl ?a < getTime ?d - 60000" by simp
  have live: "?b \<in> set [?a, ?b] \<and> getTime ?d - 60000 \<le> ttl ?b" by simp
  from startup_purge_exact [of 60000 ?d "[?a, ?b]" None 1793793600001 1793793600002] keys stale live
  show ?thesis by simp
qed

section \<open>Uniqueness of keys and upsert\<close>

lemma key_unique_get: "key_unique (rows c) \<Longrightarrow> key_unique (rows (snd (Cache_get now k c)))"
  by (simp add: Cache_get_def Cache_del_def key_unique_del split: option.splits)

lemma key_unique_set: "key_unique (rows c) \<Longrightarrow> key_unique (rows (Cache_set now k v a c))"
  by (simp add: Cache_set_def key_unique_insert)

lemma key_unique_constructor:
  assumes "key_unique t"
  shows "key_unique (rows (Cache_constructor tbd_arg d ng ns t))"
proof -
  let ?b = "case tbd_arg of None \<Rightarrow> 60 * 1000 | Some x \<Rightarrow> x"
  let ?c0 = "\<lparr>tbd = ?b, rows = startup_purge ?b d t, vacuums = []\<rparr>"
  from assms have "key_unique (rows ?c0)"
    by (simp add: startup_purge_def key_unique_purge)
  then have c1: "key_unique (rows (snd (Cache_get ng LAST_VACUUM ?c0)))"
    by (rule key_unique_get)
  then have "key_unique (rows (Cache_set ns LAST_VACUUM (dateString d) (Some ten_years) (snd (Cache_get ng LAST_VACUUM ?c0))))"
    by (rule key_unique_set)
  with c1 show ?thesis
    by (simp add: rows_constructor Let_def)
qed

text \<open>
  Claim C5. Uniqueness of keys is an invariant: if no two rows of the table share a key,
  the same holds after \<^verbatim>\<open>set\<close>, \<^verbatim>\<open>get\<close>, \<^verbatim>\<open>updateTtl\<close>,
  \<^verbatim>\<open>del\<close> and after the constructor has run on that table, and it holds of the
  cache constructed on a table just created. \<^verbatim>\<open>set\<close> on a
  key that has a row adds no row (the list of keys is unchanged) and the row it leaves for
  the key carries the new payload and the new expiry. After
  \<^verbatim>\<open>set(k, v1, _); set(k, v2, _)\<close> exactly one row has key \<open>k\<close>, and a
  \<^verbatim>\<open>get(k)\<close> not past the second expiry returns \<open>v2\<close>.
\<close>

theorem key_uniqueness_preserved:
  assumes "key_unique (rows c)"
  shows "key_unique (rows (Cache_set now k v a c))
    \<and> key_unique (rows (snd (Cache_get now k c)))
    \<and> key_unique (rows (Cache_updateTtl now k x c))
    \<and> key_unique (rows (Cache_del k c))
    \<and> key_unique (rows (Cache_constructor tbd_arg d ng ns (rows c)))
    \<and> key_unique (rows (Cache_constructor tbd_arg d ng ns []))
    \<and> (k \<in> key ` set (rows c) \<longrightarrow> map key (rows (Cache_set now k v a c)) = map key (rows c))
    \<and> stmt_get k (rows (Cache_set now k v a c))
         = Some \<lparr>key = k, val = Some v, ttl = now + (case a of None \<Rightarrow> 60 * 1000 | Some y \<Rightarrow> y)\<rparr>
    \<and> length (filter (\<lambda>r. key r = k) (rows (Cache_set n2 k v2 a2 (Cache_set n1 k v1 a1 c)))) = 1
    \<and> (n3 \<le> n2 + (case a2 of None \<Rightarrow> 60 * 1000 | Some y \<Rightarrow> y) \<longrightarrow>
          fst (Cache_get n3 k (Cache_set n2 k v2 a2 (Cache_set n1 k v1 a1 c))) = Str v2)"
proof -
  have s: "key_unique (rows (Cache_set now k v a c))"
    using assms by (rule key_unique_set)
  have g: "key_unique (rows (snd (Cache_get now k c)))"
    using assms by (rule key_unique_get)
  have u: "key_unique (rows (Cache_updateTtl now k x c))"
    using assms by (simp add: Cache_updateTtl_def key_unique_updateTtl)
  have e: "key_unique (rows (Cache_del k c))"
    using assms by (simp add: Cache_del_def key_unique_del)
  have n: "key_unique (rows (Cache_constructor tbd_arg d ng ns (rows c)))"
    using assms by (rule key_unique_constructor)
  have "key_unique []"
    by (simp add: key_unique_def)
  then have n0: "key_unique (rows (Cache_constructor tbd_arg d ng ns []))"
    by (rule key_unique_constructor)
  have m: "map key (rows (Cache_set now k v a c)) = map key (rows c)" if "k \<in> key ` set (rows c)"
    using that by (simp add: Cache_set_def map_key_insert)
  have stored: "stmt_get k (rows (Cache_set now k v a c))
         = Some \<lparr>key = k, val = Some v, ttl = now + (case a of None \<Rightarrow> 60 * 1000 | Some y \<Rightarrow> y)\<rparr>"
    by (simp add: Cache_set_def stmt_get_insert_same)
  have "key_unique (rows (Cache_set n1 k v1 a1 c))"
    using assms by (rule key_unique_set)
  then have one: "length (filter (\<lambda>r. key r = k) (rows (Cache_set n2 k v2 a2 (Cache_set n1 k v1 a1 c)))) = 1"
    by (simp add: Cache_set_def [of n2] count_insert)
  have latest: "fst (Cache_get n3 k (Cache_set n2 k v2 a2 (Cache_set n1 k v1 a1 c))) = Str v2"
    if "n3 \<le> n2 + (case a2 of None \<Rightarrow> 60 * 1000 | Some y \<Rightarrow> y)"
  proof -
    have "stmt_get k (rows (Cache_set n2 k v2 a2 (Cache_set n1 k v1 a1 c)))
         = Some \<lparr>key = k, val = Some v2, ttl = n2 + (case a2 of None \<Rightarrow> 60 * 1000 | Some y \<Rightarrow> y)\<rparr>"
      by (simp add: Cache_set_def [of n2] stmt_get_insert_same)
    with that show ?thesis by (simp add: Cache_get_def)
  qed
  from s g u e n n0 m stored one latest show ?thesis by simp
qed

theorem key_uniqueness_preserved_witness:
  "key_unique (rows \<lparr>tbd = 60000, rows = [\<lparr>key = ''k'', val = Some ''old'', ttl = 10\<rparr>], vacuums = []\<rparr>)
   \<and> rows (Cache_set 2000 ''k'' ''b'' (Some 1000) (Cache_set 1000 ''k'' ''a'' (Some 1000)
        \<lparr>tbd = 60000, rows = [\<lparr>key = ''k'', val = Some ''old'', ttl = 10\<rparr>], vacuums = []\<rparr>))
       = [\<lparr>key = ''k'', val = Some ''b'', ttl = 3000\<rparr>]
   \<and> length (filter (\<lambda>r. key r = ''k'') (rows (Cache_set 2000 ''k'' ''b'' (Some 1000) (Cache_set 1000 ''k'' ''a'' (Some 1000)
        \<lparr>tbd = 60000, rows = [\<lparr>key = ''k'', val = Some ''old'', ttl = 10\<rparr>], vacuums = []\<rparr>)))) = 1
   \<and> fst (Cache_get 2500 ''k'' (Cache_set 2000 ''k'' ''b'' (Some 1000) (Cache_set 1000 ''k'' ''a'' (Some 1000)
        \<lparr>tbd = 60000, rows = [\<lparr>key = ''k'', val = Some ''old'', ttl = 10\<rparr>], vacuums = []\<rparr>))) = Str ''b''"
proof -
  let ?c = "\<lparr>tbd = 60000, rows = [\<lparr>key = ''k'', val = Some ''old'', ttl = 10\<rparr>], vacuums = []\<rparr>"
  have inv: "key_unique (rows ?c)" by (simp add: key_unique_def)
  have present: "''k'' \<in> key ` set (rows ?c)" by simp
  have fresh: "(2500::int) \<le> 2000 + (case Some 1000 of None \<Rightarrow> 60 * 1000 | Some y \<Rightarrow> y)" by simp
  have run: "rows (Cache_set 2000 ''k'' ''b'' (Some 1000) (Cache_set 1000 ''k'' ''a'' (Some 1000) ?c))
       = [\<lparr>key = ''k'', val = Some ''b'', ttl = 3000\<rparr>]"
    by (simp add: Cache_set_def stmt_insert_def)
  from key_uniqueness_preserved [OF inv, where k = "''k''" and ?n1.0 = 1000 and ?n2.0 = 2000 and ?n3.0 = 2500
      and ?v1.0 = "''a''" and ?v2.0 = "''b''" and ?a1.0 = "Some 1000" and ?a2.0 = "Some 1000"] fresh
  have "length (filter (\<lambda>r. key r = ''k'') (rows (Cache_set 2000 ''k'' ''b'' (Some 1000) (Cache_set 1000 ''k'' ''a'' (Some 1000) ?c)))) = 1
    \<and> fst (Cache_get 2500 ''k'' (Cache_set 2000 ''k'' ''b'' (Some 1000) (Cache_set 1000 ''k'' ''a'' (Some 1000) ?c))) = Str ''b''"
    by simp
  with inv run show ?thesis by simp
qed

section \<open>The constructor: weekly compaction\<close>

text \<open>
  With no sentinel row in the table found, the constructor runs \<^verbatim>\<open>VACUUM\<close> exactly
  when \<^verbatim>\<open>getUTCDay()\<close> is 6. Whenever it runs \<^verbatim>\<open>VACUUM\<close>, it runs it once, and
  the table that command sees already holds the sentinel row with today's date string
  and an expiry ten years after the clock reading of the \<^verbatim>\<open>set\<close>.
\<close>

lemma constructor_absent_sentinel:
  assumes "LAST_VACUUM \<notin> key ` set t"
  shows "vacuums (Cache_constructor tbd_arg d ng ns t) \<noteq> [] \<longleftrightarrow> getUTCDay d = 6"
proof -
  let ?b = "case tbd_arg of None \<Rightarrow> 60 * 1000 | Some x \<Rightarrow> x"
  let ?c0 = "\<lparr>tbd = ?b, rows = startup_purge ?b d t, vacuums = []\<rparr>"
  from assms have "LAST_VACUUM \<notin> key ` set (rows ?c0)"
    by (auto simp: startup_purge_def stmt_purge_def)
  then have "Cache_get ng LAST_VACUUM ?c0 = (Null, ?c0)"
    by (rule get_absent)
  then show ?thesis
    by (simp add: vacuums_constructor Let_def)
qed

lemma constructor_vacuum_after_sentinel:
  assumes "vacuums (Cache_constructor tbd_arg d ng ns t) \<noteq> []"
  shows "vacuums (Cache_constructor tbd_arg d ng ns t) = [rows (Cache_constructor tbd_arg d ng ns t)]
    \<and> stmt_get LAST_VACUUM (rows (Cache_constructor tbd_arg d ng ns t))
        = Some \<lparr>key = LAST_VACUUM, val = Some (dateString d), ttl = ns + ten_years\<rparr>"
proof -
  let ?b = "case tbd_arg of None \<Rightarrow> 60 * 1000 | Some x \<Rightarrow> x"
  let ?c0 = "\<lparr>tbd = ?b, rows = startup_purge ?b d t, vacuums = []\<rparr>"
  from assms have run: "fst (Cache_get ng LAST_VACUUM ?c0) \<noteq> Str (dateString d) \<and> getUTCDay d = 6"
    by (simp add: vacuums_constructor Let_def split: if_splits)
  then have "vacuums (Cache_constructor tbd_arg d ng ns t) = [rows (Cache_constructor tbd_arg d ng ns t)]"
    by (simp add: vacuums_constructor Let_def)
  moreover from run have "stmt_get LAST_VACUUM (rows (Cache_constructor tbd_arg d ng ns t))
        = Some \<lparr>key = LAST_VACUUM, val = Some (dateString d), ttl = ns + ten_years\<rparr>"
    by (simp add: rows_constructor Let_def Cache_set_def stmt_get_insert_same)
  ultimately show ?thesis by simp
qed

lemma constructor_absent_sentinel_saturday:
  "Cache_constructor None
        \<lparr>getTime = 1794052800000, getFullYear = 2026, getMonth = 10, getDate = 7, getUTCDay = 6\<rparr>
        1794052800001 1794052800002 []
      = \<lparr>tbd = 60000,
         rows = [\<lparr>key = ''__LAST_VACUUM'', val = Some ''2026-11-7'', ttl = 2109412800002\<rparr>],
         vacuums = [[\<lparr>key = ''__LAST_VACUUM'', val = Some ''2026-11-7'', ttl = 2109412800002\<rparr>]]\<rparr>"
  by code_simp

text \<open>
  Claim C1 says that the compaction runs if and only if the sentinel is absent, or the
  stored date differs from today's and the day of the week is 6, so that with no sentinel
  it runs on every weekday. The constructor tests \<^verbatim>\<open>lastVaccum === undefined\<close>, but
  \<^verbatim>\<open>get\<close> answers \<^verbatim>\<open>null\<close> for a missing row. Constructed on an empty table
  on Wednesday 2026-11-4 (\<^verbatim>\<open>getUTCDay()\<close> is 3), the cache runs no \<^verbatim>\<open>VACUUM\<close>
  and writes no sentinel.
\<close>

theorem constructor_absent_sentinel_weekday:
  "LAST_VACUUM \<notin> key ` set ([] :: table)
   \<and> Cache_constructor None
        \<lparr>getTime = 1793793600000, getFullYear = 2026, getMonth = 10, getDate = 4, getUTCDay = 3\<rparr>
        1793793600001 1793793600002 []
      = \<lparr>tbd = 60000, rows = [], vacuums = []\<rparr>"
  by (simp add: Cache_constructor_def startup_purge_def stmt_purge_def Cache_get_def stmt_get_def)

section \<open>The array codec: round trip\<close>

text \<open>
  Splitting on a one-character separator: a piece without the separator is read up to
  the next separator or to the end of the string.
\<close>

lemma split_from_no_sep:
  "c \<notin> set x \<Longrightarrow> split_from [c] acc x = [rev acc @ x]"
  by (induction x arbitrary: acc) auto

lemma split_from_at_sep:
  "c \<notin> set x \<Longrightarrow> split_from [c] acc (x @ c # rest) = (rev acc @ x) # split_from [c] [] rest"
  by (induction x arbitrary: acc) auto

lemma split_join:
  "xs \<noteq> [] \<Longrightarrow> \<forall>x \<in> set xs. c \<notin> set x \<Longrightarrow> split_from [c] [] (fastStringArrayJoin xs [c]) = xs"
proof (induction xs "[c]" rule: fastStringArrayJoin.induct)
  case 1
  then show ?case by simp
next
  case (2 x)
  then show ?case by (simp add: split_from_no_sep)
next
  case (3 x y ys)
  then show ?case by (simp add: split_from_at_sep)
qed

text \<open>
  Claim C9 says that \<^verbatim>\<open>deserializeArray(serializeArray(xs))\<close> is \<open>xs\<close> for every
  sequence of strings free of the separator. The empty sequence is joined to the empty
  string, which splits into one empty piece, not into none.
\<close>

theorem codec_roundtrip_empty_counterexample:
  "deserializeArray (serializeArray []) \<noteq> []"
  by (simp add: deserializeArray_def serializeArray_def String_split_def separator_def)

text \<open>
  Claim C9, amended. For every non-empty sequence \<open>xs\<close> of strings none of which
  contains the separator character U+0000,
  \<^verbatim>\<open>deserializeArray(serializeArray(xs))\<close> is \<open>xs\<close>. The proof does not depend on the
  alphabet, so it holds of UTF-16 code units as of the characters used here.
\<close>

theorem codec_roundtrip_nonempty:
  assumes "xs \<noteq> []" and "\<forall>x \<in> set xs. CHR 0x00 \<notin> set x"
  shows "deserializeArray (serializeArray xs) = xs"
  using assms by (simp add: deserializeArray_def serializeArray_def String_split_def separator_def split_join)

theorem codec_roundtrip_nonempty_witness:
  "[''ab'', '''', ''c''] \<noteq> [] \<and> deserializeArray (serializeArray [''ab'', '''', ''c'']) = [''ab'', '''', ''c'']"
proof -
  have ne: "[''ab'', '''', ''c''] \<noteq> []" by simp
  have clean: "\<forall>x \<in> set [''ab'', '''', ''c'']. CHR 0x00 \<notin> set x" by simp
  from codec_roundtrip_nonempty [OF ne clean] ne show ?thesis by simp
qed

text \<open>
  Claim C10. The convention on empty input: \<^verbatim>\<open>serializeArray([])\<close> is the empty
  string, \<^verbatim>\<open>deserializeArray("")\<close> is the list holding one empty string, and so the
  round trip takes the empty list to that singleton list.
\<close>

theorem codec_empty_convention:
  "serializeArray [] = '''' \<and> deserializeArray '''' = [''''] \<and> deserializeArray (serializeArray []) = ['''']"
  by (simp add: deserializeArray_def serializeArray_def String_split_def separator_def)

end
